theory Spec2Isabelle
  imports Complex_Main
begin

section \<open>Python values, exceptions and the outside world\<close>

text \<open>
  The two modules \<^verbatim>\<open>ipgetter.py\<close> and \<^verbatim>\<open>ipwatch.py\<close> are Python 3 programs (f-strings,
  \<^verbatim>\<open>datetime.timestamp\<close>), so the \<^verbatim>\<open>six.PY3\<close> branches are the ones embedded.

  A Python \<^verbatim>\<open>str\<close> is a \<open>string\<close>; the values \<^verbatim>\<open>json.load\<close> can produce, and \<^verbatim>\<open>None\<close>,
  are \<open>pyval\<close>. A float is the rational it denotes. A dict is the list of its items
  (keys distinct, in insertion order).
\<close>

datatype pyval =
    PNone
  | PBool bool
  | PInt int
  | PFloat rat
  | PStr string
  | PList "pyval list"
  | PDict "(string \<times> pyval) list"

text \<open>Every exception of the model is a subclass of Python's \<^verbatim>\<open>Exception\<close>.\<close>

datatype exn =
    IndexError | TypeError | KeyError | ValueError | UnboundLocalError | AttributeError
  | JSONDecodeError | URLError | HTTPError nat | SocketTimeout

text \<open>What is handed to \<^verbatim>\<open>outfile.write\<close>: a \<^verbatim>\<open>str\<close> or a \<^verbatim>\<open>bytes\<close> object.\<close>

datatype pydata = PyStr string | PyBytes string

text \<open>
  One call of \<^verbatim>\<open>opener.open(server, timeout=4)\<close> followed by \<^verbatim>\<open>url.read()\<close>: the open raises
  (timeout, connection error, \<^verbatim>\<open>HTTPError\<close> for a status outside 2xx), or the open succeeds
  and the read raises, or the body arrives.
\<close>

datatype http_result = OpenRaises exn | ReadRaises exn | Body string

text \<open>One call of \<^verbatim>\<open>urllib.urlopen(JSON_LIST_URL)\<close>: it raises, or answers with a status code
  and a body.\<close>

datatype list_result = UrlopenRaises exn | Response nat string

datatype family = AF_INET | AF_INET6

text \<open>
  The environment: the sources of nondeterminism (indexed by how many times each has been
  consulted) and the library functions the code calls but does not define.
  \<open>local_now\<close> is the naive local wall-clock time in seconds, \<open>timestamp\<close> is
  \<^verbatim>\<open>datetime.timestamp\<close>, \<open>strftime\<close> is \<^verbatim>\<open>strftime('%Y-%m-%dT%H:%M:%S')\<close>.
  \<open>inet_pton fam a\<close> tells whether \<^verbatim>\<open>socket.inet_pton(fam, a)\<close> returns.
  \<open>perm_error\<close> is the message of the \<^verbatim>\<open>PermissionError\<close> that \<^verbatim>\<open>os.remove\<close> raises, if it does.
\<close>

record env =
  choice_src :: "nat \<Rightarrow> nat"
  http_get :: "nat \<Rightarrow> string \<Rightarrow> http_result"
  list_get :: "nat \<Rightarrow> list_result"
  local_now :: "nat \<Rightarrow> rat"
  timestamp :: "rat \<Rightarrow> rat"
  strftime :: "rat \<Rightarrow> string"
  json_loads :: "string \<Rightarrow> pyval option"
  json_dumps :: "pyval \<Rightarrow> string"
  utf8_decode :: "string \<Rightarrow> string option"
  inet_pton :: "family \<Rightarrow> string \<Rightarrow> bool"
  py_repr :: "pyval \<Rightarrow> string"
  perm_error :: "string option"

text \<open>
  The state: the files, what was printed, the number of open connections, and how often
  each source of nondeterminism was consulted (\<open>n_fetch\<close> counts the calls of \<^verbatim>\<open>fetch\<close>).
\<close>

record world =
  files :: "string \<Rightarrow> string option"
  stdout :: "string list"
  conns :: nat
  n_rand :: nat
  n_fetch :: nat
  n_list :: nat
  n_now :: nat

type_synonym 'a io = "world \<Rightarrow> (exn + 'a) \<times> world"

definition bind :: "'a io \<Rightarrow> ('a \<Rightarrow> 'b io) \<Rightarrow> 'b io" where
  "bind m f w = (case m w of (Inl e, w1) \<Rightarrow> (Inl e, w1) | (Inr x, w1) \<Rightarrow> f x w1)"

definition try_except :: "'a io \<Rightarrow> (exn \<Rightarrow> 'a io) \<Rightarrow> 'a io" where
  "try_except body handler w =
     (case body w of (Inl e, w1) \<Rightarrow> handler e w1 | (Inr x, w1) \<Rightarrow> (Inr x, w1))"

definition print :: "string \<Rightarrow> world \<Rightarrow> world" where
  "print line w = w\<lparr>stdout := stdout w @ [line]\<rparr>"

fun show_nat :: "nat \<Rightarrow> string" where
  "show_nat n =
     (if n < 10 then [char_of (48 + n)]
      else show_nat (n div 10) @ [char_of (48 + n mod 10)])"

text \<open>\<^verbatim>\<open>"%s" % v\<close>: a string is itself, \<^verbatim>\<open>None\<close> is \<^verbatim>\<open>None\<close>, the rest is left to the library.\<close>

definition py_str :: "env \<Rightarrow> pyval \<Rightarrow> string" where
  "py_str E v = (case v of PStr s \<Rightarrow> s | PNone \<Rightarrow> ''None'' | _ \<Rightarrow> py_repr E v)"

section \<open>Strings\<close>

definition in_range :: "char \<Rightarrow> char \<Rightarrow> char \<Rightarrow> bool" where
  "in_range a b c = ((of_char a :: nat) \<le> of_char c \<and> (of_char c :: nat) \<le> of_char b)"

text \<open>\<^verbatim>\<open>s.split(c)\<close> and \<^verbatim>\<open>sep.join(xs)\<close>.\<close>

fun split_on :: "char \<Rightarrow> string \<Rightarrow> string list" where
  "split_on c [] = [[]]"
| "split_on c (x # xs) =
     (if x = c then [] # split_on c xs
      else (case split_on c xs of [] \<Rightarrow> [[x]] | y # ys \<Rightarrow> (x # y) # ys))"

fun py_join :: "string \<Rightarrow> string list \<Rightarrow> string" where
  "py_join sep [] = []"
| "py_join sep [x] = x"
| "py_join sep (x # y # ys) = x @ sep @ py_join sep (y # ys)"

text \<open>\<^verbatim>\<open>str.isspace\<close> on the code points below 256, and \<^verbatim>\<open>str.strip()\<close>.\<close>

definition isspace :: "char \<Rightarrow> bool" where
  "isspace c =
     (let n = (of_char c :: nat)
      in (9 \<le> n \<and> n \<le> 13) \<or> (28 \<le> n \<and> n \<le> 32) \<or> n = 133 \<or> n = 160)"

definition strip :: "string \<Rightarrow> string" where
  "strip s = rev (dropWhile isspace (rev (dropWhile isspace s)))"

text \<open>Reading a file opened in text mode translates \<^verbatim>\<open>\r\n\<close> and \<^verbatim>\<open>\r\<close> to \<^verbatim>\<open>\n\<close>; writing on
  a system whose line separator is \<^verbatim>\<open>\n\<close> translates nothing.\<close>

fun universal_newlines :: "string \<Rightarrow> string" where
  "universal_newlines [] = []"
| "universal_newlines [x] = (if x = CHR 0x0D then [CHR 0x0A] else [x])"
| "universal_newlines (x # y # ys) =
     (if x = CHR 0x0D then
        (if y = CHR 0x0A then CHR 0x0A # universal_newlines ys
         else CHR 0x0A # universal_newlines (y # ys))
      else x # universal_newlines (y # ys))"

text \<open>\<^verbatim>\<open>k in s\<close> for two strings.\<close>

fun is_substr :: "string \<Rightarrow> string \<Rightarrow> bool" where
  "is_substr k [] = (k = [])"
| "is_substr k (x # xs) = (take (length k) (x # xs) = k \<or> is_substr k xs)"

section \<open>The regular expression of \<^verbatim>\<open>fetch\<close>\<close>

text \<open>
  The constructs the pattern uses, and a backtracking matcher: \<open>rx_match r s\<close> lists, in the
  order Python's \<^verbatim>\<open>re\<close> tries them, what is left of \<open>s\<close> after a match of \<open>r\<close> at its start
  (the first alternative first, an optional item taken before it is skipped).
  \<open>re_search\<close> is \<^verbatim>\<open>re.search(r, s).group(0)\<close>: the first success at the leftmost position.
\<close>

datatype rx = Lit char | Rng char char | Seq rx rx | Alt rx rx | Opt rx

fun rx_match :: "rx \<Rightarrow> string \<Rightarrow> string list" where
  "rx_match (Lit c) s = (case s of [] \<Rightarrow> [] | x # xs \<Rightarrow> if x = c then [xs] else [])"
| "rx_match (Rng a b) s = (case s of [] \<Rightarrow> [] | x # xs \<Rightarrow> if in_range a b x then [xs] else [])"
| "rx_match (Seq r1 r2) s = concat (map (rx_match r2) (rx_match r1 s))"
| "rx_match (Alt r1 r2) s = rx_match r1 s @ rx_match r2 s"
| "rx_match (Opt r) s = rx_match r s @ [s]"

fun re_search :: "rx \<Rightarrow> string \<Rightarrow> string option" where
  "re_search r s =
     (case rx_match r s of
        rest # _ \<Rightarrow> Some (take (length s - length rest) s)
      | [] \<Rightarrow> (case s of [] \<Rightarrow> None | _ # xs \<Rightarrow> re_search r xs))"

text \<open>\<^verbatim>\<open>(25[0-5]|2[0-4][0-9]|[01]?[0-9][0-9]?)\<close>\<close>

definition octet_rx :: rx where
  "octet_rx =
     Alt (Seq (Lit CHR ''2'') (Seq (Lit CHR ''5'') (Rng CHR ''0'' CHR ''5'')))
    (Alt (Seq (Lit CHR ''2'') (Seq (Rng CHR ''0'' CHR ''4'') (Rng CHR ''0'' CHR ''9'')))
         (Seq (Opt (Alt (Lit CHR ''0'') (Lit CHR ''1'')))
              (Seq (Rng CHR ''0'' CHR ''9'') (Opt (Rng CHR ''0'' CHR ''9'')))))"

text \<open>Four octets separated by \<^verbatim>\<open>\.\<close>\<close>

definition ipv4_rx :: rx where
  "ipv4_rx = Seq octet_rx (Seq (Lit CHR ''.'') (Seq octet_rx (Seq (Lit CHR ''.'')
             (Seq octet_rx (Seq (Lit CHR ''.'') octet_rx)))))"

text \<open>The words a pattern denotes, whatever the order of the search.\<close>

fun lang :: "rx \<Rightarrow> string set" where
  "lang (Lit c) = {[c]}"
| "lang (Rng a b) = {[x] | x. in_range a b x}"
| "lang (Seq r1 r2) = {u @ v | u v. u \<in> lang r1 \<and> v \<in> lang r2}"
| "lang (Alt r1 r2) = lang r1 \<union> lang r2"
| "lang (Opt r) = insert [] (lang r)"

text \<open>
  A dotted quad, in the words of the specification: four components separated by dots,
  each of one to three decimal digits and of value 0 to 255.
\<close>

definition is_digit :: "char \<Rightarrow> bool" where
  "is_digit c = in_range CHR ''0'' CHR ''9'' c"

definition digit_val :: "char \<Rightarrow> nat" where
  "digit_val c = of_char c - 48"

definition decimal :: "string \<Rightarrow> nat" where
  "decimal s = foldl (\<lambda>a c. 10 * a + digit_val c) 0 s"

definition octet_ok :: "string \<Rightarrow> bool" where
  "octet_ok s = (1 \<le> length s \<and> length s \<le> 3 \<and> list_all is_digit s \<and> decimal s \<le> 255)"

definition dotted_quad :: "string \<Rightarrow> bool" where
  "dotted_quad s =
     (case split_on CHR ''.'' s of
        [a, b, c, d] \<Rightarrow> octet_ok a \<and> octet_ok b \<and> octet_ok c \<and> octet_ok d
      | _ \<Rightarrow> False)"

section \<open>\<^verbatim>\<open>ipgetter.py\<close>\<close>

subsection \<open>\<^verbatim>\<open>IPgetter.__init__\<close>: the server list and its cache\<close>

definition JSON_FILENAME :: string where
  "JSON_FILENAME = ''serverCache.json''"

text \<open>\<^verbatim>\<open>os.path.basename(JSON_LIST_URL)\<close>\<close>

definition JSON_ERRFILE :: string where
  "JSON_ERRFILE = ''servers.json''"

text \<open>
  \<^verbatim>\<open>writeJSONCache\<close>: \<^verbatim>\<open>open(theFilename, 'w', encoding="utf-8")\<close> creates or empties the file;
  \<^verbatim>\<open>outfile.write\<close> of a text file takes a \<^verbatim>\<open>str\<close> and raises \<^verbatim>\<open>TypeError\<close> on \<^verbatim>\<open>bytes\<close>.
\<close>

definition writeJSONCache :: "pydata \<Rightarrow> string \<Rightarrow> unit io" where
  "writeJSONCache theContent theFilename w =
     (let w1 = w\<lparr>files := (files w)(theFilename \<mapsto> [])\<rparr>
      in case theContent of
           PyStr s \<Rightarrow> (Inr (), w1\<lparr>files := (files w1)(theFilename \<mapsto> s)\<rparr>)
         | PyBytes b \<Rightarrow> (Inl TypeError, w1))"

text \<open>\<^verbatim>\<open>k in v\<close> and \<^verbatim>\<open>v[k]\<close> for a string \<open>k\<close>.\<close>

definition py_in :: "string \<Rightarrow> pyval \<Rightarrow> exn + bool" where
  "py_in k v =
     (case v of
        PDict kvs \<Rightarrow> Inr (k \<in> fst ` set kvs)
      | PList xs \<Rightarrow> Inr (PStr k \<in> set xs)
      | PStr s \<Rightarrow> Inr (is_substr k s)
      | _ \<Rightarrow> Inl TypeError)"

definition py_getitem :: "pyval \<Rightarrow> string \<Rightarrow> exn + pyval" where
  "py_getitem v k =
     (case v of
        PDict kvs \<Rightarrow> (case map_of kvs k of None \<Rightarrow> Inl KeyError | Some x \<Rightarrow> Inr x)
      | _ \<Rightarrow> Inl TypeError)"

text \<open>\<^verbatim>\<open>a or b\<close> where evaluating \<open>a\<close> may raise, and \<open>b\<close> is evaluated only if \<open>a\<close> is false.\<close>

definition or_else :: "exn + bool \<Rightarrow> exn + bool \<Rightarrow> exn + bool" where
  "or_else a b = (case a of Inl e \<Rightarrow> Inl e | Inr x \<Rightarrow> if x then Inr True else b)"

definition lift1 :: "('a \<Rightarrow> 'b) \<Rightarrow> exn + 'a \<Rightarrow> exn + 'b" where
  "lift1 f a = (case a of Inl e \<Rightarrow> Inl e | Inr x \<Rightarrow> Inr (f x))"

definition isinstance_float :: "pyval \<Rightarrow> bool" where
  "isinstance_float v = (case v of PFloat _ \<Rightarrow> True | _ \<Rightarrow> False)"

definition isinstance_list :: "pyval \<Rightarrow> bool" where
  "isinstance_list v = (case v of PList _ \<Rightarrow> True | _ \<Rightarrow> False)"

text \<open>The operands below are reached only for the types the earlier tests let through.\<close>

definition len_is_0 :: "pyval \<Rightarrow> bool" where
  "len_is_0 v = (case v of PList xs \<Rightarrow> xs = [] | _ \<Rightarrow> False)"

definition float_less :: "pyval \<Rightarrow> rat \<Rightarrow> bool" where
  "float_less v t = (case v of PFloat x \<Rightarrow> x < t | _ \<Rightarrow> False)"

text \<open>
  The condition of the \<^verbatim>\<open>if\<close> that decides to fetch the list again, disjunct by disjunct.
  \<^verbatim>\<open>len(str(theList["expiry"])) == 0\<close> is false of every float, whose \<^verbatim>\<open>str\<close> is never empty.
\<close>

definition needs_refresh :: "pyval \<Rightarrow> rat \<Rightarrow> exn + bool" where
  "needs_refresh theList currentTS =
     or_else (Inr (theList = PNone))
    (or_else (lift1 Not (py_in ''expiry'' theList))
    (or_else (lift1 Not (py_in ''expiryDisplay'' theList))
    (or_else (lift1 Not (py_in ''servers'' theList))
    (or_else (lift1 (\<lambda>v. v = PNone) (py_getitem theList ''expiry''))
    (or_else (lift1 (\<lambda>v. v = PNone) (py_getitem theList ''expiryDisplay''))
    (or_else (lift1 (\<lambda>v. v = PNone) (py_getitem theList ''servers''))
    (or_else (lift1 (\<lambda>v. \<not> isinstance_float v) (py_getitem theList ''expiry''))
    (or_else (Inr False)
    (or_else (lift1 (\<lambda>v. \<not> isinstance_list v) (py_getitem theList ''servers''))
    (or_else (lift1 len_is_0 (py_getitem theList ''servers''))
             (lift1 (\<lambda>v. float_less v currentTS) (py_getitem theList ''expiry''))))))))))))"

text \<open>The cache as \<^verbatim>\<open>json.load\<close> gives it; \<^verbatim>\<open>None\<close> when the file is absent or the load raises.\<close>

definition load_cache :: "env \<Rightarrow> world \<Rightarrow> pyval" where
  "load_cache E w =
     (case files w JSON_FILENAME of
        None \<Rightarrow> PNone
      | Some c \<Rightarrow> (case json_loads E c of None \<Rightarrow> PNone | Some v \<Rightarrow> v))"

text \<open>\<^verbatim>\<open>os.remove(JSON_ERRFILE)\<close> with its two handlers.\<close>

definition remove_errfile :: "env \<Rightarrow> world \<Rightarrow> world" where
  "remove_errfile E w =
     (case perm_error E of
        Some v \<Rightarrow> print v w
      | None \<Rightarrow> w\<lparr>files := (files w)(JSON_ERRFILE := None)\<rparr>)"

definition days90 :: rat where
  "days90 = 90 * 86400"

definition new_pool :: "env \<Rightarrow> rat \<Rightarrow> pyval \<Rightarrow> pyval" where
  "new_pool E now servers =
     PDict [(''expiry'', PFloat (timestamp E (now + days90))),
            (''expiryDisplay'', PStr (strftime E (now + days90))),
            (''servers'', servers)]"

text \<open>The body of \<^verbatim>\<open>if(operUrl.getcode()==200)\<close>: the \<^verbatim>\<open>try\<close> and its bare \<^verbatim>\<open>except\<close>.\<close>

definition store_list :: "env \<Rightarrow> rat \<Rightarrow> string \<Rightarrow> pyval io" where
  "store_list E now data =
     try_except
       (\<lambda>w. case json_loads E data of
               None \<Rightarrow> (Inl JSONDecodeError, w)
             | Some v \<Rightarrow>
                 bind (writeJSONCache (PyStr (json_dumps E (new_pool E now v))) JSON_FILENAME)
                      (\<lambda>_ w1. (Inr (new_pool E now v), w1)) w)
       (\<lambda>e. bind (writeJSONCache (PyBytes data) JSON_ERRFILE) (\<lambda>_ w1. (Inl e, w1)))"

definition refetch :: "env \<Rightarrow> rat \<Rightarrow> pyval io" where
  "refetch E now w =
     (let w1 = w\<lparr>n_list := Suc (n_list w)\<rparr>
      in case list_get E (n_list w) of
           UrlopenRaises e \<Rightarrow> (Inl e, w1)
         | Response code data \<Rightarrow>
             if code = 200 then store_list E now data w1
             else (Inr (new_pool E now (PList [])),
                   print (''Error receiving data '' @ show_nat code) w1))"

text \<open>\<^verbatim>\<open>IPgetter()\<close>: the value is \<^verbatim>\<open>self.server_list\<close>.\<close>

definition IPgetter_init :: "env \<Rightarrow> pyval io" where
  "IPgetter_init E w =
     (let now = local_now E (n_now w);
          currentTS = timestamp E now;
          w1 = w\<lparr>n_now := Suc (n_now w)\<rparr>;
          theList = load_cache E w1;
          w2 = remove_errfile E w1
      in case needs_refresh theList currentTS of
           Inl e \<Rightarrow> (Inl e, w2)
         | Inr stale \<Rightarrow>
             bind (if stale then refetch E now else (\<lambda>w'. (Inr theList, w')))
                  (\<lambda>l w'. (py_getitem l ''servers'', w')) w2)"

subsection \<open>\<^verbatim>\<open>fetch\<close>\<close>

text \<open>
  The \<^verbatim>\<open>try\<close> block of \<^verbatim>\<open>fetch\<close>, for the \<open>i\<close>-th call: its outcome, whether \<^verbatim>\<open>url\<close> was
  bound to an open response, and the state. A \<open>server\<close> that is not a string makes
  \<^verbatim>\<open>opener.open\<close> raise. A body that is not UTF-8 is read as ISO-8859-1, byte for code point
  (\<open>decode_body\<close>). \<^verbatim>\<open>m.group(0)\<close> raises when nothing matched.
\<close>

definition decode_body :: "env \<Rightarrow> string \<Rightarrow> string" where
  "decode_body E content = (case utf8_decode E content of Some t \<Rightarrow> t | None \<Rightarrow> content)"

definition fetch_try :: "env \<Rightarrow> pyval \<Rightarrow> nat \<Rightarrow> world \<Rightarrow> (exn + string) \<times> bool \<times> world" where
  "fetch_try E server i w =
     (case server of
        PStr u \<Rightarrow>
          (case http_get E i u of
             OpenRaises e \<Rightarrow> (Inl e, False, w)
           | ReadRaises e \<Rightarrow> (Inl e, True, w\<lparr>conns := Suc (conns w)\<rparr>)
           | Body content \<Rightarrow>
               (let w1 = w\<lparr>conns := Suc (conns w)\<rparr>
                in case re_search ipv4_rx (decode_body E content) of
                     None \<Rightarrow> (Inl AttributeError, True, w1)
                   | Some myip \<Rightarrow> (Inr (if length myip > 0 then myip else []), True, w1)))
      | _ \<Rightarrow> (Inl AttributeError, False, w))"

text \<open>\<^verbatim>\<open>except Exception: return ''\<close> and \<^verbatim>\<open>finally: if url: url.close()\<close>.\<close>

definition fetch :: "env \<Rightarrow> pyval \<Rightarrow> string io" where
  "fetch E server w =
     (case fetch_try E server (n_fetch w) (w\<lparr>n_fetch := Suc (n_fetch w)\<rparr>) of
        (r, opened, w1) \<Rightarrow>
          ((case r of Inl e \<Rightarrow> Inr [] | Inr myip \<Rightarrow> Inr myip),
           (if opened then w1\<lparr>conns := conns w1 - 1\<rparr> else w1)))"

subsection \<open>\<^verbatim>\<open>get_externalip_and_source\<close>\<close>

record addr =
  ip :: pyval
  server :: pyval

text \<open>\<^verbatim>\<open>random.choice(seq)\<close>: \<^verbatim>\<open>seq[i]\<close> for a drawn \<open>i\<close> below \<^verbatim>\<open>len(seq)\<close>.\<close>

definition random_choice :: "env \<Rightarrow> pyval \<Rightarrow> pyval io" where
  "random_choice E seq w =
     (let i = choice_src E (n_rand w); w1 = w\<lparr>n_rand := Suc (n_rand w)\<rparr>
      in case seq of
           PList xs \<Rightarrow> if xs = [] then (Inl IndexError, w) else (Inr (xs ! (i mod length xs)), w1)
         | PStr s \<Rightarrow> if s = [] then (Inl IndexError, w) else (Inr (PStr [s ! (i mod length s)]), w1)
         | PDict kvs \<Rightarrow> if kvs = [] then (Inl IndexError, w) else (Inl KeyError, w1)
         | _ \<Rightarrow> (Inl TypeError, w))"

text \<open>\<^verbatim>\<open>for i in range(7)\<close>, with the number of rounds left.\<close>

fun server_loop :: "env \<Rightarrow> pyval \<Rightarrow> nat \<Rightarrow> addr \<Rightarrow> addr io" where
  "server_loop E server_list 0 myip w = (Inr myip, w)"
| "server_loop E server_list (Suc k) myip w =
     (case random_choice E server_list w of
        (Inl e, w1) \<Rightarrow> (Inl e, w1)
      | (Inr s, w1) \<Rightarrow>
          (case fetch E s w1 of
             (Inl e, w2) \<Rightarrow> (Inl e, w2)
           | (Inr a, w2) \<Rightarrow>
               if length a > 0 then (Inr \<lparr>ip = PStr a, server = s\<rparr>, w2)
               else server_loop E server_list k \<lparr>ip = PStr a, server = s\<rparr> w2))"

definition get_externalip_and_source :: "env \<Rightarrow> pyval \<Rightarrow> addr io" where
  "get_externalip_and_source E server_list =
     server_loop E server_list 7 \<lparr>ip = PNone, server = PNone\<rparr>"

definition myipAndSource :: "env \<Rightarrow> addr io" where
  "myipAndSource E = bind (IPgetter_init E) (get_externalip_and_source E)"

section \<open>\<^verbatim>\<open>ipwatch.py\<close>\<close>

text \<open>
  The fields of \<^verbatim>\<open>ConfigInfo\<close> that \<^verbatim>\<open>doTheWork\<close> reads; \<open>try_count\<close> is the value of
  \<^verbatim>\<open>int(config.try_count)\<close>.
\<close>

record config =
  machine :: string
  receiver :: "string list"
  receiver_email :: "string list"
  save_ip_path :: string
  try_count :: int
  ip_blacklist :: "string list"

text \<open>
  \<^verbatim>\<open>is_valid_ip\<close>. The handlers catch \<^verbatim>\<open>socket.error\<close> (the address is not valid) and
  \<^verbatim>\<open>AttributeError\<close> (no \<^verbatim>\<open>inet_pton\<close>, which Python 3 always has). \<^verbatim>\<open>inet_pton\<close> raises
  \<^verbatim>\<open>TypeError\<close> when the address is not a string and \<^verbatim>\<open>ValueError\<close> when it holds a null
  character; neither is caught.
\<close>

definition valid_str :: "env \<Rightarrow> string \<Rightarrow> bool" where
  "valid_str E a = (inet_pton E AF_INET a \<or> inet_pton E AF_INET6 a)"

definition is_valid_ip :: "env \<Rightarrow> pyval \<Rightarrow> exn + bool" where
  "is_valid_ip E v =
     (case v of
        PStr a \<Rightarrow> if CHR 0x00 \<in> set a then Inl ValueError else Inr (valid_str E a)
      | _ \<Rightarrow> Inl TypeError)"

definition in_blacklist :: "pyval \<Rightarrow> string list \<Rightarrow> bool" where
  "in_blacklist v blacklist = (case v of PStr a \<Rightarrow> a \<in> set blacklist | _ \<Rightarrow> False)"

text \<open>
  \<^verbatim>\<open>for counter in range(try_count)\<close>: \<open>counter\<close>, the number of rounds left, and the
  binding of \<^verbatim>\<open>theIP\<close> (none before the first round).
\<close>

fun getip_loop :: "env \<Rightarrow> string list \<Rightarrow> nat \<Rightarrow> nat \<Rightarrow> addr option \<Rightarrow> addr io" where
  "getip_loop E blacklist counter 0 theIP w =
     (case theIP of None \<Rightarrow> (Inl UnboundLocalError, w) | Some r \<Rightarrow> (Inr r, w))"
| "getip_loop E blacklist counter (Suc k) theIP w =
     (case myipAndSource E w of
        (Inl e, w1) \<Rightarrow> (Inl e, w1)
      | (Inr r, w1) \<Rightarrow>
          (case is_valid_ip E (ip r) of
             Inl e \<Rightarrow> (Inl e, w1)
           | Inr ok \<Rightarrow>
               if \<not> ok then
                 getip_loop E blacklist (Suc counter) k (Some r)
                   (print (''GetIP: Try '' @ show_nat (counter + 1)
                           @ '':  Bad IP    (malformed): '' @ py_str E (ip r)) w1)
               else if in_blacklist (ip r) blacklist then
                 getip_loop E blacklist (Suc counter) k (Some r)
                   (print (''GetIP: Try '' @ show_nat (counter + 1)
                           @ '':  Bad IP (in Blacklist): '' @ py_str E (ip r)) w1)
               else
                 (Inr r,
                  print (''GetIP: Try '' @ show_nat (counter + 1)
                         @ '': Good IP               : '' @ py_str E (ip r)) w1)))"

definition getipAndSource :: "env \<Rightarrow> int \<Rightarrow> string list \<Rightarrow> addr io" where
  "getipAndSource E n blacklist = getip_loop E blacklist 0 (nat n) None"

definition not_found :: "string \<Rightarrow> string" where
  "not_found filepath = ''File '' @ [CHR 0x27] @ filepath @ [CHR 0x27] @ '' not found''"

definition malformed :: "string \<Rightarrow> string" where
  "malformed a = ''malformed ('' @ [CHR 0x27] @ a @ [CHR 0x27] @ '')''"

definition getoldip :: "env \<Rightarrow> string \<Rightarrow> world \<Rightarrow> exn + addr" where
  "getoldip E filepath w =
     (case files w filepath of
        None \<Rightarrow> Inr \<lparr>ip = PStr (not_found filepath), server = PNone\<rparr>
      | Some c \<Rightarrow>
          (case split_on CHR '','' (strip (universal_newlines c)) of
             [] \<Rightarrow> Inr \<lparr>ip = PStr ''Mangled File'', server = PNone\<rparr>
           | a # rest \<Rightarrow>
               (case is_valid_ip E (PStr a) of
                  Inl e \<Rightarrow> Inl e
                | Inr ok \<Rightarrow>
                    Inr \<lparr>ip = PStr (if ok then a else malformed a),
                         server = (if length (a # rest) > 1 then PStr (py_join '','' rest)
                                   else PNone)\<rparr>)))"

text \<open>\<^verbatim>\<open>updateoldip\<close>: the file is opened for writing, and so emptied, before \<^verbatim>\<open>','.join\<close>
  is evaluated; the join raises \<^verbatim>\<open>TypeError\<close> on an item that is not a string.\<close>

definition updateoldip :: "string \<Rightarrow> addr \<Rightarrow> unit io" where
  "updateoldip filepath newip w =
     (let w1 = w\<lparr>files := (files w)(filepath \<mapsto> [])\<rparr>
      in case (ip newip, server newip) of
           (PStr a, PStr b) \<Rightarrow>
             (Inr (), w1\<lparr>files := (files w1)(filepath \<mapsto> py_join '','' [a, b])\<rparr>)
         | _ \<Rightarrow> (Inl TypeError, w1))"

definition appendInfo :: "env \<Rightarrow> addr \<Rightarrow> string list" where
  "appendInfo E r =
     [''  IP Address  : '' @ py_str E (ip r), ''  Info Source : '' @ py_str E (server r)]"

definition messageBody :: "env \<Rightarrow> addr \<Rightarrow> addr \<Rightarrow> config \<Rightarrow> string list" where
  "messageBody E oldip newip c =
     [''The IP address of '' @ [CHR 0x22] @ machine c @ [CHR 0x22] @ '' has changed:'',
      [], ''Old IP''] @ appendInfo E oldip @ [''New IP''] @ appendInfo E newip"

text \<open>
  \<^verbatim>\<open>sendmail\<close> up to its \<^verbatim>\<open>return\<close>, which comes right after the message is printed: the
  loop over \<^verbatim>\<open>config.receiver_email\<close> reads \<^verbatim>\<open>config.receiver[ix]\<close>, then the message is put
  together and printed.
\<close>

definition sendmail :: "env \<Rightarrow> addr \<Rightarrow> addr \<Rightarrow> config \<Rightarrow> unit io" where
  "sendmail E oldip newip c w =
     (if length (receiver c) < length (receiver_email c) then (Inl IndexError, w)
      else (Inr (), print (py_join [CHR 0x0D, CHR 0x0A] (messageBody E oldip newip c)) w))"

definition doTheWork :: "env \<Rightarrow> config \<Rightarrow> unit io" where
  "doTheWork E c w =
     (case getoldip E (save_ip_path c) w of
        Inl e \<Rightarrow> (Inl e, w)
      | Inr oldip \<Rightarrow>
          bind (getipAndSource E (try_count c) (ip_blacklist c))
            (\<lambda>currip.
               if ip currip \<noteq> ip oldip then
                 (\<lambda>w1. bind (sendmail E oldip currip c)
                         (\<lambda>_. updateoldip (save_ip_path c) currip)
                         (print ''Current IP differs from old IP.'' w1))
               else
                 (\<lambda>w1. (Inr (), print ''Current IP = Old IP.  No need to send email.'' w1))) w)"

section \<open>Notions the properties are stated with\<close>

text \<open>An attempt of the resolution loop is acceptable when its address is valid and not
  blacklisted; the loop prints one line for an attempt it rejects.\<close>

definition reject_line :: "env \<Rightarrow> nat \<Rightarrow> addr \<Rightarrow> bool \<Rightarrow> string" where
  "reject_line E counter r ok =
     ''GetIP: Try '' @ show_nat (counter + 1)
     @ (if ok then '':  Bad IP (in Blacklist): '' else '':  Bad IP    (malformed): '')
     @ py_str E (ip r)"

definition good_line :: "env \<Rightarrow> nat \<Rightarrow> addr \<Rightarrow> string" where
  "good_line E counter r =
     ''GetIP: Try '' @ show_nat (counter + 1) @ '': Good IP               : '' @ py_str E (ip r)"

text \<open>
  \<open>rejected E blacklist w k w' prev\<close>: a resolution loop started in the state \<open>w\<close> makes \<open>k\<close>
  attempts in a row that each return a record whose address is malformed or blacklisted;
  \<open>w'\<close> is the state after the last of them and \<open>prev\<close> its record (none when \<open>k\<close> is 0).
\<close>

inductive rejected :: "env \<Rightarrow> string list \<Rightarrow> world \<Rightarrow> nat \<Rightarrow> world \<Rightarrow> addr option \<Rightarrow> bool"
  for E :: env and blacklist :: "string list" and w :: world where
  no_attempt: "rejected E blacklist w 0 w None"
| one_more:
    "rejected E blacklist w k w1 prev \<Longrightarrow>
     myipAndSource E w1 = (Inr r, w2) \<Longrightarrow> is_valid_ip E (ip r) = Inr ok \<Longrightarrow>
     \<not> ok \<or> in_blacklist (ip r) blacklist \<Longrightarrow>
     rejected E blacklist w (Suc k) (print (reject_line E k r ok) w2) (Some r)"

text \<open>What a resolution can return as its address: the empty string or a dotted quad.\<close>

definition resolved :: "pyval \<Rightarrow> bool" where
  "resolved v = (\<exists>a. v = PStr a \<and> (a = [] \<or> dotted_quad a))"

text \<open>The addresses \<^verbatim>\<open>inet_pton\<close> accepts are written with hexadecimal digits, dots and
  colons.\<close>

definition addr_char :: "char \<Rightarrow> bool" where
  "addr_char c =
     (in_range CHR ''0'' CHR ''9'' c \<or> in_range CHR ''a'' CHR ''f'' c
      \<or> in_range CHR ''A'' CHR ''F'' c \<or> c = CHR ''.'' \<or> c = CHR '':'')"

text \<open>The cache-miss test in the words of the specification, for a cache that holds a JSON
  object with the items \<open>kvs\<close>: a field is missing or null, \<open>expiry\<close> is not a float,
  \<open>servers\<close> is not a list or is empty, or \<open>expiry\<close> is earlier than the current time.\<close>

definition cache_miss :: "(string \<times> pyval) list \<Rightarrow> rat \<Rightarrow> bool" where
  "cache_miss kvs t =
     (case (map_of kvs ''expiry'', map_of kvs ''expiryDisplay'', map_of kvs ''servers'') of
        (Some e, Some d, Some s) \<Rightarrow>
          e = PNone \<or> d = PNone \<or> s = PNone
          \<or> (case e of
                PFloat x \<Rightarrow> (case s of PList xs \<Rightarrow> xs = [] \<or> x < t | _ \<Rightarrow> True)
              | _ \<Rightarrow> True)
      | _ \<Rightarrow> True)"

section \<open>A small environment to run the program in\<close>

text \<open>
  One server, \<^verbatim>\<open>http://a.example\<close>, on a machine whose clock stands at 1000 seconds and whose
  time zone is UTC. The cache, when present, expires at 5000 seconds; a pool fetched now
  expires at 7777000 seconds, on 1 April 1970. The texts are the ones \<^verbatim>\<open>json.dumps\<close> writes
  with \<^verbatim>\<open>indent=4\<close>; \<open>example_loads\<close> and \<open>example_dumps\<close> are the library functions on the
  texts and values the examples use, \<open>example_loads\<close> rejects every other text.
  \<^verbatim>\<open>inet_pton\<close> of the example knows the IPv4 addresses only: four decimal components
  without leading zeros.
\<close>

definition dq :: "string \<Rightarrow> string" where
  "dq s = CHR 0x22 # s @ [CHR 0x22]"

definition server_url :: string where
  "server_url = ''http://a.example''"

definition list_text :: string where
  "list_text = ''['' @ dq server_url @ '']''"

definition pool_text :: "string \<Rightarrow> string \<Rightarrow> string \<Rightarrow> string" where
  "pool_text e d s =
     ''{'' @ [CHR 0x0A] @ ''    '' @ dq ''expiry'' @ '': '' @ e @ '','' @ [CHR 0x0A]
     @ ''    '' @ dq ''expiryDisplay'' @ '': '' @ d @ '','' @ [CHR 0x0A]
     @ ''    '' @ dq ''servers'' @ '': '' @ s @ [CHR 0x0A] @ ''}''"

definition one_server_text :: string where
  "one_server_text =
     ''['' @ [CHR 0x0A] @ ''        '' @ dq server_url @ [CHR 0x0A] @ ''    ]''"

definition pool :: "rat \<Rightarrow> pyval \<Rightarrow> pyval \<Rightarrow> pyval" where
  "pool e d s = PDict [(''expiry'', PFloat e), (''expiryDisplay'', d), (''servers'', s)]"

definition cache_text :: string where
  "cache_text = pool_text ''5000.0'' (dq ''1970-01-01T01:23:20'') one_server_text"

definition odd_cache_text :: string where
  "odd_cache_text = pool_text ''5000.0'' ''5'' one_server_text"

definition fresh_text :: string where
  "fresh_text = pool_text ''7777000.0'' (dq ''1970-04-01T00:16:40'') one_server_text"

definition fresh_empty_text :: string where
  "fresh_empty_text = pool_text ''7777000.0'' (dq ''1970-04-01T00:16:40'') ''[]''"

definition example_loads :: "string \<Rightarrow> pyval option" where
  "example_loads s =
     (if s = cache_text
        then Some (pool 5000 (PStr ''1970-01-01T01:23:20'') (PList [PStr server_url]))
      else if s = odd_cache_text then Some (pool 5000 (PInt 5) (PList [PStr server_url]))
      else if s = fresh_text
        then Some (pool 7777000 (PStr ''1970-04-01T00:16:40'') (PList [PStr server_url]))
      else if s = fresh_empty_text
        then Some (pool 7777000 (PStr ''1970-04-01T00:16:40'') (PList []))
      else if s = list_text then Some (PList [PStr server_url])
      else if s = ''[]'' then Some (PList [])
      else None)"

definition example_dumps :: "pyval \<Rightarrow> string" where
  "example_dumps v =
     (if v = pool 7777000 (PStr ''1970-04-01T00:16:40'') (PList []) then fresh_empty_text
      else fresh_text)"

definition strict_octet :: "string \<Rightarrow> bool" where
  "strict_octet s = (octet_ok s \<and> (length s = 1 \<or> hd s \<noteq> CHR ''0''))"

definition strict_quad :: "string \<Rightarrow> bool" where
  "strict_quad s =
     (case split_on CHR ''.'' s of
        [a, b, c, d] \<Rightarrow> strict_octet a \<and> strict_octet b \<and> strict_octet c \<and> strict_octet d
      | _ \<Rightarrow> False)"

definition example_env :: "(nat \<Rightarrow> string \<Rightarrow> http_result) \<Rightarrow> list_result \<Rightarrow> env" where
  "example_env h l =
     \<lparr>choice_src = (\<lambda>_. 0), http_get = h, list_get = (\<lambda>_. l), local_now = (\<lambda>_. 1000),
      timestamp = (\<lambda>t. t),
      strftime = (\<lambda>t. if t = 7777000 then ''1970-04-01T00:16:40'' else ''1970-01-01T00:16:40''),
      json_loads = example_loads, json_dumps = example_dumps, utf8_decode = Some,
      inet_pton = (\<lambda>f a. f = AF_INET \<and> strict_quad a), py_repr = (\<lambda>_. ''?''),
      perm_error = None\<rparr>"

text \<open>Servers that answer with a given body, that never answer, and that answer from the
  \<open>k\<close>-th request on.\<close>

definition always_body :: "string \<Rightarrow> nat \<Rightarrow> string \<Rightarrow> http_result" where
  "always_body body i u = Body body"

definition never_answers :: "nat \<Rightarrow> string \<Rightarrow> http_result" where
  "never_answers i u = OpenRaises URLError"

definition answers_from :: "nat \<Rightarrow> string \<Rightarrow> nat \<Rightarrow> string \<Rightarrow> http_result" where
  "answers_from k body i u = (if i < k then OpenRaises SocketTimeout else Body body)"

definition example_world :: "(string \<Rightarrow> string option) \<Rightarrow> world" where
  "example_world fs =
     \<lparr>files = fs, stdout = [], conns = 0, n_rand = 0, n_fetch = 0, n_list = 0, n_now = 0\<rparr>"

definition cached_world :: world where
  "cached_world = example_world [JSON_FILENAME \<mapsto> cache_text]"

definition example_config :: "int \<Rightarrow> string list \<Rightarrow> config" where
  "example_config n blacklist =
     \<lparr>machine = ''host'', receiver = [''me''], receiver_email = [''me@a.example''],
      save_ip_path = ''oldip.txt'', try_count = n, ip_blacklist = blacklist\<rparr>"

section \<open>The search for an address in a response body\<close>

lemma rx_match_sound:
  "rest \<in> set (rx_match r s) \<Longrightarrow> \<exists>w. s = w @ rest \<and> w \<in> lang r"
proof (induction r arbitrary: s rest)
  case (Lit c) then show ?case by (cases s) (auto split: if_splits)
next
  case (Rng a b) then show ?case by (cases s) (auto split: if_splits)
next
  case (Seq r1 r2)
  then obtain mid where m1: "mid \<in> set (rx_match r1 s)" and m2: "rest \<in> set (rx_match r2 mid)"
    by auto
  from Seq.IH(1)[OF m1] obtain u where u: "s = u @ mid" "u \<in> lang r1" by blast
  from Seq.IH(2)[OF m2] obtain v where v: "mid = v @ rest" "v \<in> lang r2" by blast
  show ?case using u v by (intro exI[of _ "u @ v"]) auto
next
  case (Alt r1 r2)
  then have "rest \<in> set (rx_match r1 s) \<or> rest \<in> set (rx_match r2 s)" by simp
  then show ?case using Alt.IH by fastforce
next
  case (Opt r)
  then have "rest \<in> set (rx_match r s) \<or> rest = s" by auto
  then show ?case using Opt.IH by fastforce
qed

lemma chr_code_aux: "(of_char d :: nat) = n \<Longrightarrow> (c = d) = (of_char c = n)"
  by (metis of_char_eq_iff)

lemma chr_code:
  "(c = CHR ''0'') = (of_char c = (48::nat))"
  "(c = CHR ''1'') = (of_char c = (49::nat))"
  "(c = CHR ''2'') = (of_char c = (50::nat))"
  "(c = CHR ''5'') = (of_char c = (53::nat))"
  "(c = CHR ''.'') = (of_char c = (46::nat))"
  by (rule chr_code_aux, simp)+

lemma octet_lang: "w \<in> lang octet_rx \<Longrightarrow> octet_ok w"
  unfolding octet_rx_def
  by (auto simp: octet_ok_def is_digit_def in_range_def decimal_def digit_val_def)

lemma octet_first:
  assumes "octet_ok w" and "rest = [] \<or> \<not> is_digit (hd rest)"
  shows "\<exists>ms. rx_match octet_rx (w @ rest) = rest # ms"
proof -
  from assms(1) consider a where "w = [a]" | a b where "w = [a,b]" | a b c where "w = [a,b,c]"
    unfolding octet_ok_def
    by (cases w; cases "tl w"; cases "tl (tl w)"; cases "tl (tl (tl w))") auto
  then show ?thesis
  proof cases
    case 1
    then show ?thesis using assms
      by (cases rest) (auto simp: octet_rx_def octet_ok_def is_digit_def in_range_def decimal_def digit_val_def chr_code)
  next
    case 2
    then show ?thesis using assms
      by (cases rest) (auto simp: octet_rx_def octet_ok_def is_digit_def in_range_def decimal_def digit_val_def chr_code)
  next
    case 3
    then show ?thesis using assms
      by (cases rest) (auto simp: octet_rx_def octet_ok_def is_digit_def in_range_def decimal_def digit_val_def chr_code)
  qed
qed

lemma split_on_nonempty: "split_on c s \<noteq> []"
  by (induction s) (auto split: list.splits)

lemma split_on_no_sep: "c \<notin> set a \<Longrightarrow> split_on c a = [a]"
  by (induction a) auto

lemma split_on_append: "c \<notin> set a \<Longrightarrow> split_on c (a @ c # t) = a # split_on c t"
  by (induction a) auto

lemma join_split_on: "py_join [c] (split_on c s) = s"
proof (induction s)
  case Nil then show ?case by simp
next
  case (Cons x xs)
  obtain y ys where y: "split_on c xs = y # ys"
    using split_on_nonempty by (cases "split_on c xs") auto
  show ?case using Cons y by (cases ys) auto
qed

lemma octet_ok_no_dot: "octet_ok w \<Longrightarrow> CHR ''.'' \<notin> set w"
  by (auto simp: octet_ok_def list_all_iff is_digit_def in_range_def)

lemma seq_first:
  "rx_match r1 s = m # ms \<Longrightarrow> rx_match r2 m = n # ns \<Longrightarrow> \<exists>ks. rx_match (Seq r1 r2) s = n # ks"
  by simp

lemma lit_first: "\<exists>ks. rx_match (Lit c) (c # t) = t # ks"
  by simp

lemma ipv4_first:
  assumes "octet_ok a" "octet_ok b" "octet_ok c" "octet_ok d"
  shows "\<exists>ks. rx_match ipv4_rx (a @ CHR ''.'' # b @ CHR ''.'' # c @ CHR ''.'' # d) = [] # ks"
proof -
  have nd: "\<And>t. \<not> is_digit (hd (CHR ''.'' # t))"
    by (simp add: is_digit_def in_range_def)
  obtain k4 where k4: "rx_match octet_rx d = [] # k4"
    using octet_first[OF assms(4), of "[]"] by auto
  have l3: "\<exists>ks. rx_match (Seq (Lit CHR ''.'') octet_rx) (CHR ''.'' # d) = [] # ks"
    using k4 by simp
  obtain k3 where k3: "rx_match octet_rx (c @ CHR ''.'' # d) = (CHR ''.'' # d) # k3"
    using octet_first[OF assms(3), of "CHR ''.'' # d"] nd by auto
  have s3: "\<exists>ks. rx_match (Seq octet_rx (Seq (Lit CHR ''.'') octet_rx)) (c @ CHR ''.'' # d) = [] # ks"
    using k3 l3 seq_first by blast
  then have l2: "\<exists>ks. rx_match (Seq (Lit CHR ''.'') (Seq octet_rx (Seq (Lit CHR ''.'') octet_rx)))
                   (CHR ''.'' # c @ CHR ''.'' # d) = [] # ks"
    by auto
  obtain k2 where k2: "rx_match octet_rx (b @ CHR ''.'' # c @ CHR ''.'' # d) = (CHR ''.'' # c @ CHR ''.'' # d) # k2"
    using octet_first[OF assms(2), of "CHR ''.'' # c @ CHR ''.'' # d"] nd by auto
  have s2: "\<exists>ks. rx_match (Seq octet_rx (Seq (Lit CHR ''.'') (Seq octet_rx (Seq (Lit CHR ''.'') octet_rx))))
                   (b @ CHR ''.'' # c @ CHR ''.'' # d) = [] # ks"
    using k2 l2 seq_first by blast
  then have l1: "\<exists>ks. rx_match (Seq (Lit CHR ''.'') (Seq octet_rx (Seq (Lit CHR ''.'') (Seq octet_rx (Seq (Lit CHR ''.'') octet_rx)))))
                   (CHR ''.'' # b @ CHR ''.'' # c @ CHR ''.'' # d) = [] # ks"
    by auto
  obtain k1 where k1: "rx_match octet_rx (a @ CHR ''.'' # b @ CHR ''.'' # c @ CHR ''.'' # d)
                        = (CHR ''.'' # b @ CHR ''.'' # c @ CHR ''.'' # d) # k1"
    using octet_first[OF assms(1), of "CHR ''.'' # b @ CHR ''.'' # c @ CHR ''.'' # d"] nd by auto
  show ?thesis unfolding ipv4_rx_def using k1 l1 seq_first by blast
qed

lemma dotted_quad_shape:
  assumes "dotted_quad s"
  obtains a b c d where "s = a @ CHR ''.'' # b @ CHR ''.'' # c @ CHR ''.'' # d"
    "octet_ok a" "octet_ok b" "octet_ok c" "octet_ok d"
proof -
  from assms obtain a b c d where sp: "split_on CHR ''.'' s = [a, b, c, d]"
    and ok: "octet_ok a" "octet_ok b" "octet_ok c" "octet_ok d"
    by (auto simp: dotted_quad_def split: list.splits)
  have "s = py_join [CHR ''.''] [a, b, c, d]" using join_split_on[of "CHR ''.''" s] sp by simp
  then have "s = a @ CHR ''.'' # b @ CHR ''.'' # c @ CHR ''.'' # d" by simp
  then show ?thesis using ok that by blast
qed

lemma search_whole: "dotted_quad s \<Longrightarrow> re_search ipv4_rx s = Some s"
proof -
  assume "dotted_quad s"
  then obtain a b c d where s: "s = a @ CHR ''.'' # b @ CHR ''.'' # c @ CHR ''.'' # d"
    and ok: "octet_ok a" "octet_ok b" "octet_ok c" "octet_ok d"
    by (rule dotted_quad_shape)
  obtain ks where "rx_match ipv4_rx s = [] # ks" using ipv4_first[OF ok] s by auto
  then show ?thesis by (cases s) auto
qed

lemma re_search_Some:
  "re_search r s = Some m \<Longrightarrow>
     \<exists>pre rest. s = pre @ m @ rest \<and> rest \<in> set (rx_match r (m @ rest))
        \<and> (\<forall>i < length pre. rx_match r (drop i s) = [])"
proof (induction s)
  case Nil
  then obtain rest rs where rr: "rx_match r [] = rest # rs" and m: "m = []"
    by (cases "rx_match r []") auto
  then have "rest \<in> set (rx_match r [])" by simp
  from rx_match_sound[OF this] have "rest = []" by simp
  then show ?case using rr m by (intro exI[of _ "[]"]) simp
next
  case (Cons x xs)
  show ?case
  proof (cases "rx_match r (x # xs)")
    case Nil
    with Cons.prems have "re_search r xs = Some m" by simp
    from Cons.IH[OF this] obtain pre rest where
      p: "xs = pre @ m @ rest" "rest \<in> set (rx_match r (m @ rest))"
         "\<forall>i < length pre. rx_match r (drop i xs) = []" by blast
    have "\<forall>i < length (x # pre). rx_match r (drop i (x # xs)) = []"
    proof (intro allI impI)
      fix i assume "i < length (x # pre)"
      then show "rx_match r (drop i (x # xs)) = []"
        using Nil p(3) by (cases i) auto
    qed
    then show ?thesis using p(1,2) by (intro exI[of _ "x # pre"] exI[of _ rest]) auto
  next
    case (Cons rest rs)
    with Cons.prems have m: "m = take (length (x # xs) - length rest) (x # xs)" by simp
    have "rest \<in> set (rx_match r (x # xs))" using Cons by simp
    from rx_match_sound[OF this] obtain w where w: "x # xs = w @ rest" by blast
    then have "m = w" using m by (metis append_eq_conv_conj length_append add_diff_cancel_right')
    then show ?thesis using w Cons by (intro exI[of _ "[]"] exI[of _ rest]) auto
  qed
qed

lemma ipv4_lang: "w \<in> lang ipv4_rx \<Longrightarrow> dotted_quad w"
proof -
  assume "w \<in> lang ipv4_rx"
  then obtain a b c d where w: "w = a @ CHR ''.'' # b @ CHR ''.'' # c @ CHR ''.'' # d"
    and l: "a \<in> lang octet_rx" "b \<in> lang octet_rx" "c \<in> lang octet_rx" "d \<in> lang octet_rx"
    unfolding ipv4_rx_def by auto
  have ok: "octet_ok a" "octet_ok b" "octet_ok c" "octet_ok d" using l octet_lang by auto
  have "split_on CHR ''.'' w = [a, b, c, d]"
    using ok w by (simp add: split_on_append split_on_no_sep octet_ok_no_dot)
  then show ?thesis using ok by (simp add: dotted_quad_def)
qed

lemma search_only: "re_search ipv4_rx s = Some m \<Longrightarrow> dotted_quad m"
proof -
  assume "re_search ipv4_rx s = Some m"
  from re_search_Some[OF this] obtain rest where "rest \<in> set (rx_match ipv4_rx (m @ rest))" by blast
  from rx_match_sound[OF this] have "m \<in> lang ipv4_rx" by auto
  then show ?thesis by (rule ipv4_lang)
qed


lemma search_whole_iff: "(re_search ipv4_rx s = Some s) = dotted_quad s"
  using search_whole search_only by blast

lemma lang_iff: "(s \<in> lang ipv4_rx) = dotted_quad s"
proof
  show "dotted_quad s" if "s \<in> lang ipv4_rx" using that by (rule ipv4_lang)
next
  assume "dotted_quad s"
  then have "re_search ipv4_rx s = Some s" by (rule search_whole)
  from re_search_Some[OF this] obtain pre rest where
    s: "s = pre @ s @ rest" and m: "rest \<in> set (rx_match ipv4_rx (s @ rest))" by blast
  from s have "length s = length pre + length s + length rest"
    by (metis length_append add.assoc)
  then have "rest = []" by simp
  with m have "[] \<in> set (rx_match ipv4_rx s)" by simp
  from rx_match_sound[OF this] show "s \<in> lang ipv4_rx" by simp
qed

text \<open>
  C7. The pattern of \<^verbatim>\<open>fetch\<close> matches the dotted-quad strings whose four components are
  each between 0 and 255, and only them: a string is in the language of the pattern exactly
  when it is such a dotted quad, and \<^verbatim>\<open>re.search\<close> returns a string whole exactly when it is
  such a dotted quad; whatever a search returns is such a dotted quad. In particular
  \<^verbatim>\<open>8.8.8.8\<close> is matched, and \<^verbatim>\<open>999.1.1.1\<close> and \<^verbatim>\<open>1.2.3\<close> are not.
\<close>

theorem ipv4_pattern_matches_dotted_quads:
  "(s \<in> lang ipv4_rx) = dotted_quad s
   \<and> (re_search ipv4_rx s = Some s) = dotted_quad s
   \<and> (re_search ipv4_rx t = Some m \<longrightarrow> dotted_quad m)
   \<and> ''8.8.8.8'' \<in> lang ipv4_rx \<and> re_search ipv4_rx ''8.8.8.8'' = Some ''8.8.8.8''
   \<and> ''999.1.1.1'' \<notin> lang ipv4_rx \<and> re_search ipv4_rx ''999.1.1.1'' \<noteq> Some ''999.1.1.1''
   \<and> ''1.2.3'' \<notin> lang ipv4_rx \<and> re_search ipv4_rx ''1.2.3'' = None"
proof -
  have q8: "dotted_quad ''8.8.8.8''"
    by (simp add: dotted_quad_def octet_ok_def is_digit_def in_range_def decimal_def digit_val_def)
  have q9: "\<not> dotted_quad ''999.1.1.1''"
    by (simp add: dotted_quad_def octet_ok_def is_digit_def in_range_def decimal_def digit_val_def)
  have q3: "\<not> dotted_quad ''1.2.3''"
    by (simp add: dotted_quad_def)
  have n3: "re_search ipv4_rx ''1.2.3'' = None"
    by (simp add: ipv4_rx_def octet_rx_def in_range_def)
  have a: "(s \<in> lang ipv4_rx) = dotted_quad s" by (rule lang_iff)
  have b: "(re_search ipv4_rx s = Some s) = dotted_quad s" by (rule search_whole_iff)
  have c: "re_search ipv4_rx t = Some m \<longrightarrow> dotted_quad m" using search_only by blast
  have d: "''8.8.8.8'' \<in> lang ipv4_rx" using q8 by (rule iffD2[OF lang_iff])
  have e: "re_search ipv4_rx ''8.8.8.8'' = Some ''8.8.8.8''" using q8 by (rule search_whole)
  have f: "''999.1.1.1'' \<notin> lang ipv4_rx" using q9 iffD1[OF lang_iff] by (rule contrapos_nn)
  have g: "re_search ipv4_rx ''999.1.1.1'' \<noteq> Some ''999.1.1.1''"
    using q9 iffD1[OF search_whole_iff] by (rule contrapos_nn)
  have h: "''1.2.3'' \<notin> lang ipv4_rx" using q3 iffD1[OF lang_iff] by (rule contrapos_nn)
  from a b c d e f g h n3 show ?thesis by (intro conjI)
qed

theorem ipv4_pattern_matches_dotted_quads_witness:
  "re_search ipv4_rx ''ip 1.2.3.256'' = Some ''1.2.3.25'' \<and> dotted_quad ''1.2.3.25''
   \<and> ''10.0.0.255'' \<in> lang ipv4_rx \<and> re_search ipv4_rx ''10.0.0.255'' = Some ''10.0.0.255''"
proof -
  have d: "dotted_quad ''10.0.0.255''"
    by (simp add: dotted_quad_def octet_ok_def is_digit_def in_range_def decimal_def digit_val_def)
  have r: "re_search ipv4_rx ''ip 1.2.3.256'' = Some ''1.2.3.25''"
    by (simp add: ipv4_rx_def octet_rx_def in_range_def)
  note t = ipv4_pattern_matches_dotted_quads [of "''10.0.0.255''" "''ip 1.2.3.256''" "''1.2.3.25''"]
  from t d have 1: "''10.0.0.255'' \<in> lang ipv4_rx" by (elim conjE) (rule iffD2)
  from t d have 2: "re_search ipv4_rx ''10.0.0.255'' = Some ''10.0.0.255''"
    by (elim conjE) (rule iffD2)
  from t r have 3: "dotted_quad ''1.2.3.25''" by (elim conjE) (erule mp)
  from r 3 1 2 show ?thesis by (intro conjI)
qed

section \<open>What one call of \<^verbatim>\<open>fetch\<close> and one resolution attempt do to the state\<close>

lemma fetch_fun:
  "fetch E srv w =
     (Inr (case srv of
             PStr u \<Rightarrow> (case http_get E (n_fetch w) u of
                          Body content \<Rightarrow> (case re_search ipv4_rx (decode_body E content) of Some m \<Rightarrow> m | None \<Rightarrow> [])
                        | _ \<Rightarrow> [])
           | _ \<Rightarrow> []),
      w\<lparr>n_fetch := Suc (n_fetch w)\<rparr>)"
  by (auto simp: fetch_def fetch_try_def Let_def split: pyval.splits http_result.splits option.splits)

lemma fetch_cases:
  "\<exists>a. fetch E srv w = (Inr a, w\<lparr>n_fetch := Suc (n_fetch w)\<rparr>) \<and> (a = [] \<or> dotted_quad a)"
  by (auto simp: fetch_fun search_only split: pyval.splits http_result.splits option.splits)

lemma random_choice_counters:
  "random_choice E sl w = (x, w1) \<Longrightarrow>
     n_fetch w1 = n_fetch w \<and> n_now w1 = n_now w \<and> files w1 = files w \<and> conns w1 = conns w"
  by (auto simp: random_choice_def Let_def split: pyval.splits if_splits)

lemma server_loop_counters:
  "server_loop E sl k myip w = (x, w') \<Longrightarrow>
     n_fetch w' \<le> n_fetch w + k \<and> n_now w' = n_now w \<and> files w' = files w \<and> conns w' = conns w"
proof (induction k arbitrary: myip w)
  case 0 then show ?case by simp
next
  case (Suc k)
  obtain c w1 where rc: "random_choice E sl w = (c, w1)" by (cases "random_choice E sl w")
  note r1 = random_choice_counters[OF rc]
  show ?case
  proof (cases c)
    case (Inl e)
    with Suc.prems rc r1 show ?thesis by auto
  next
    case (Inr s)
    obtain a where f: "fetch E s w1 = (Inr a, w1\<lparr>n_fetch := Suc (n_fetch w1)\<rparr>)"
      using fetch_cases by blast
    show ?thesis
    proof (cases "length a > 0")
      case True
      with Suc.prems rc Inr f r1 show ?thesis by auto
    next
      case False
      with Suc.prems rc Inr f have
        "server_loop E sl k \<lparr>ip = PStr a, server = s\<rparr> (w1\<lparr>n_fetch := Suc (n_fetch w1)\<rparr>) = (x, w')"
        by simp
      from Suc.IH[OF this] r1 show ?thesis by simp
    qed
  qed
qed

lemma server_loop_resolved:
  "server_loop E sl k myip w = (Inr r, w') \<Longrightarrow> 0 < k \<or> resolved (ip myip) \<Longrightarrow> resolved (ip r)"
proof (induction k arbitrary: myip w)
  case 0 then show ?case by simp
next
  case (Suc k)
  obtain c w1 where rc: "random_choice E sl w = (c, w1)" by (cases "random_choice E sl w")
  show ?case
  proof (cases c)
    case (Inl e)
    with Suc.prems rc show ?thesis by auto
  next
    case (Inr s)
    obtain a where f: "fetch E s w1 = (Inr a, w1\<lparr>n_fetch := Suc (n_fetch w1)\<rparr>)"
      and a: "a = [] \<or> dotted_quad a"
      using fetch_cases by blast
    show ?thesis
    proof (cases "length a > 0")
      case True
      with Suc.prems rc Inr f a show ?thesis by (auto simp: resolved_def)
    next
      case False
      with Suc.prems rc Inr f have
        "server_loop E sl k \<lparr>ip = PStr a, server = s\<rparr> (w1\<lparr>n_fetch := Suc (n_fetch w1)\<rparr>) = (Inr r, w')"
        by simp
      from Suc.IH[OF this] a show ?thesis by (simp add: resolved_def)
    qed
  qed
qed

lemma writeJSONCache_counters:
  "writeJSONCache c f w = (x, w') \<Longrightarrow>
     n_fetch w' = n_fetch w \<and> n_now w' = n_now w \<and> conns w' = conns w"
  by (auto simp: writeJSONCache_def Let_def split: pydata.splits)

lemma writeJSONCache_str:
  "writeJSONCache (PyStr s) f w = (Inr (), w\<lparr>files := (files w)(f \<mapsto> s)\<rparr>)"
  by (simp add: writeJSONCache_def)

lemma writeJSONCache_bytes:
  "writeJSONCache (PyBytes b) f w = (Inl TypeError, w\<lparr>files := (files w)(f \<mapsto> [])\<rparr>)"
  by (simp add: writeJSONCache_def)

lemma store_list_parsed:
  "json_loads E data = Some v \<Longrightarrow>
   store_list E now data w =
     (Inr (new_pool E now v),
      w\<lparr>files := (files w)(JSON_FILENAME \<mapsto> json_dumps E (new_pool E now v))\<rparr>)"
  by (simp add: store_list_def try_except_def bind_def writeJSONCache_str)

lemma store_list_unparsed:
  "json_loads E data = None \<Longrightarrow>
   store_list E now data w =
     (Inl TypeError, w\<lparr>files := (files w)(JSON_ERRFILE \<mapsto> [])\<rparr>)"
  by (simp add: store_list_def try_except_def bind_def writeJSONCache_bytes)

lemma store_list_counters:
  "store_list E now data w = (x, w') \<Longrightarrow>
     n_fetch w' = n_fetch w \<and> n_now w' = n_now w \<and> conns w' = conns w"
  by (cases "json_loads E data") (auto simp: store_list_parsed store_list_unparsed)

lemma refetch_counters:
  assumes "refetch E now w = (x, w')"
  shows "n_fetch w' = n_fetch w \<and> n_now w' = n_now w \<and> conns w' = conns w"
proof (cases "list_get E (n_list w)")
  case (UrlopenRaises e)
  with assms show ?thesis by (auto simp: refetch_def Let_def)
next
  case (Response code data)
  show ?thesis
  proof (cases "code = 200")
    case True
    with assms Response have "store_list E now data (w\<lparr>n_list := Suc (n_list w)\<rparr>) = (x, w')"
      by (simp add: refetch_def Let_def)
    from store_list_counters[OF this] show ?thesis by simp
  next
    case False
    with assms Response show ?thesis by (auto simp: refetch_def Let_def print_def)
  qed
qed

lemma remove_errfile_counters:
  "n_fetch (remove_errfile E w) = n_fetch w \<and> n_now (remove_errfile E w) = n_now w
   \<and> conns (remove_errfile E w) = conns w"
  by (simp add: remove_errfile_def print_def split: option.splits)

lemma IPgetter_init_counters:
  assumes "IPgetter_init E w = (x, w')"
  shows "n_fetch w' = n_fetch w \<and> n_now w' = Suc (n_now w) \<and> conns w' = conns w"
proof -
  define w1 where "w1 = w\<lparr>n_now := Suc (n_now w)\<rparr>"
  define w2 where "w2 = remove_errfile E w1"
  have c2: "n_fetch w2 = n_fetch w \<and> n_now w2 = Suc (n_now w) \<and> conns w2 = conns w"
    using remove_errfile_counters[of E w1] by (simp add: w2_def w1_def)
  show ?thesis
  proof (cases "needs_refresh (load_cache E w1) (timestamp E (local_now E (n_now w)))")
    case (Inl e)
    with assms have "w' = w2" by (simp add: IPgetter_init_def Let_def w1_def w2_def)
    with c2 show ?thesis by simp
  next
    case (Inr stale)
    show ?thesis
    proof (cases stale)
      case True
      obtain y w3 where r: "refetch E (local_now E (n_now w)) w2 = (y, w3)"
        by (cases "refetch E (local_now E (n_now w)) w2")
      from assms Inr True r have "w' = w3"
        by (auto simp: IPgetter_init_def Let_def bind_def w1_def w2_def split: sum.splits)
      with refetch_counters[OF r] c2 show ?thesis by simp
    next
      case False
      with assms Inr have "w' = w2"
        by (auto simp: IPgetter_init_def Let_def bind_def w1_def w2_def)
      with c2 show ?thesis by simp
    qed
  qed
qed

lemma myipAndSource_counters:
  "myipAndSource E w = (x, w') \<Longrightarrow>
     n_fetch w' \<le> n_fetch w + 7 \<and> n_now w' = Suc (n_now w) \<and> conns w' = conns w"
proof -
  assume a: "myipAndSource E w = (x, w')"
  obtain c w1 where i: "IPgetter_init E w = (c, w1)" by (cases "IPgetter_init E w")
  note i1 = IPgetter_init_counters[OF i]
  show ?thesis
  proof (cases c)
    case (Inl e)
    with a i i1 show ?thesis by (auto simp: myipAndSource_def bind_def)
  next
    case (Inr sl)
    with a i have "server_loop E sl 7 \<lparr>ip = PNone, server = PNone\<rparr> w1 = (x, w')"
      by (simp add: myipAndSource_def bind_def get_externalip_and_source_def)
    from server_loop_counters[OF this] i1 show ?thesis by simp
  qed
qed

lemma myipAndSource_resolved:
  "myipAndSource E w = (Inr r, w') \<Longrightarrow> resolved (ip r)"
proof -
  assume a: "myipAndSource E w = (Inr r, w')"
  obtain c w1 where i: "IPgetter_init E w = (c, w1)" by (cases "IPgetter_init E w")
  show ?thesis
  proof (cases c)
    case (Inl e)
    with a i show ?thesis by (auto simp: myipAndSource_def bind_def)
  next
    case (Inr sl)
    with a i have "server_loop E sl 7 \<lparr>ip = PNone, server = PNone\<rparr> w1 = (Inr r, w')"
      by (simp add: myipAndSource_def bind_def get_externalip_and_source_def)
    from server_loop_resolved[OF this] show ?thesis by simp
  qed
qed

section \<open>The resolution loop\<close>

lemma print_counters [simp]:
  "n_fetch (print l w) = n_fetch w" "n_now (print l w) = n_now w" "conns (print l w) = conns w"
  "files (print l w) = files w" "stdout (print l w) = stdout w @ [l]"
  by (simp_all add: print_def)

lemma getip_loop_step:
  assumes "myipAndSource E w = (Inr r, w1)" and "is_valid_ip E (ip r) = Inr ok"
  shows "getip_loop E bl c (Suc k) t w =
           (if \<not> ok \<or> in_blacklist (ip r) bl
            then getip_loop E bl (Suc c) k (Some r) (print (reject_line E c r ok) w1)
            else (Inr r, print (good_line E c r) w1))"
  using assms by (simp add: reject_line_def good_line_def)

lemma getip_loop_raise:
  "myipAndSource E w = (Inl e, w1) \<Longrightarrow> getip_loop E bl c (Suc k) t w = (Inl e, w1)"
  by simp

lemma getip_loop_counters:
  "getip_loop E bl c k t w = (x, w') \<Longrightarrow>
     n_fetch w' \<le> n_fetch w + 7 * k \<and> n_now w' \<le> n_now w + k \<and> conns w' = conns w"
proof (induction k arbitrary: c t w)
  case 0
  then show ?case by (auto split: option.splits)
next
  case (Suc k)
  obtain y w1 where m: "myipAndSource E w = (y, w1)" by (cases "myipAndSource E w")
  note m1 = myipAndSource_counters[OF m]
  show ?case
  proof (cases y)
    case (Inl e)
    with Suc.prems m m1 show ?thesis by auto
  next
    case (Inr r)
    show ?thesis
    proof (cases "is_valid_ip E (ip r)")
      case (Inl e)
      with Suc.prems m Inr m1 show ?thesis by auto
    next
      case (Inr ok)
      note st = getip_loop_step[OF m[unfolded \<open>y = Inr r\<close>] Inr, of bl c k t]
      show ?thesis
      proof (cases "\<not> ok \<or> in_blacklist (ip r) bl")
        case True
        with st Suc.prems have
          "getip_loop E bl (Suc c) k (Some r) (print (reject_line E c r ok) w1) = (x, w')" by simp
        from Suc.IH[OF this] m1 show ?thesis by simp
      next
        case False
        with st Suc.prems have "w' = print (good_line E c r) w1" by simp
        with m1 show ?thesis by simp
      qed
    qed
  qed
qed

lemma getip_loop_resolved:
  "getip_loop E bl c k t w = (Inr r, w') \<Longrightarrow> (\<forall>r0. t = Some r0 \<longrightarrow> resolved (ip r0))
     \<Longrightarrow> resolved (ip r)"
proof (induction k arbitrary: c t w)
  case 0
  then show ?case by (auto split: option.splits)
next
  case (Suc k)
  obtain y w1 where m: "myipAndSource E w = (y, w1)" by (cases "myipAndSource E w")
  show ?case
  proof (cases y)
    case (Inl e)
    with Suc.prems m show ?thesis by auto
  next
    case (Inr r1)
    have res: "resolved (ip r1)" using m Inr myipAndSource_resolved by blast
    show ?thesis
    proof (cases "is_valid_ip E (ip r1)")
      case (Inl e)
      with Suc.prems m \<open>y = Inr r1\<close> show ?thesis by auto
    next
      case (Inr ok)
      note st = getip_loop_step[OF m[unfolded \<open>y = Inr r1\<close>] Inr, of bl c k t]
      show ?thesis
      proof (cases "\<not> ok \<or> in_blacklist (ip r1) bl")
        case True
        with st Suc.prems have
          "getip_loop E bl (Suc c) k (Some r1) (print (reject_line E c r1 ok) w1) = (Inr r, w')" by simp
        from Suc.IH[OF this] res show ?thesis by simp
      next
        case False
        with st Suc.prems have "r = r1" by simp
        with res show ?thesis by simp
      qed
    qed
  qed
qed

lemma rejected_loop:
  "rejected E bl w k wk prev \<Longrightarrow>
     getip_loop E bl 0 (k + m) None w = getip_loop E bl k m prev wk \<and> n_now wk = n_now w + k"
proof (induction arbitrary: m rule: rejected.induct)
  case no_attempt
  then show ?case by simp
next
  case (one_more k w1 prev r w2 ok)
  have "getip_loop E bl 0 (k + Suc m) None w = getip_loop E bl k (Suc m) prev w1"
    and n: "n_now w1 = n_now w + k"
    using one_more.IH[of "Suc m"] by simp_all
  moreover have "getip_loop E bl k (Suc m) prev w1
      = getip_loop E bl (Suc k) m (Some r) (print (reject_line E k r ok) w2)"
    using getip_loop_step[OF one_more.hyps(2,3), of bl k m prev] one_more.hyps(4) by simp
  moreover have "n_now w2 = Suc (n_now w1)"
    using myipAndSource_counters[OF one_more.hyps(2)] by simp
  ultimately show ?case by simp
qed

lemma rejected_last: "rejected E bl w k wk prev \<Longrightarrow> (k = 0) = (prev = None)"
  by (induction rule: rejected.induct) auto

section \<open>Running the program\<close>

lemmas server_loop_numeral =
  server_loop.simps(2) [of _ _ "pred_numeral n", folded numeral_eq_Suc] for n

lemmas getip_loop_numeral =
  getip_loop.simps(2) [of _ _ _ "pred_numeral n", folded numeral_eq_Suc] for n

declare show_nat.simps [simp del]

lemma show_204: "show_nat 204 = ''204''" "show_nat 1 = ''1''" "show_nat (Suc 0) = ''1''"
  "show_nat 2 = ''2''" "show_nat 3 = ''3''"
  by code_simp+

lemmas run_defs = myipAndSource_def IPgetter_init_def get_externalip_and_source_def bind_def
  load_cache_def remove_errfile_def needs_refresh_def or_else_def lift1_def py_in_def py_getitem_def
  isinstance_float_def isinstance_list_def len_is_0_def float_less_def random_choice_def
  refetch_def new_pool_def days90_def store_list_parsed store_list_unparsed
  example_env_def example_world_def cached_world_def example_loads_def example_dumps_def pool_def
  JSON_FILENAME_def JSON_ERRFILE_def fetch_fun decode_body_def always_body_def never_answers_def
  answers_from_def Let_def server_loop_numeral getip_loop_numeral show_204 print_def cache_text_def pool_text_def dq_def
  one_server_text_def server_url_def odd_cache_text_def fresh_text_def fresh_empty_text_def
  list_text_def

lemmas work_defs = doTheWork_def getoldip_def getipAndSource_def is_valid_ip_def valid_str_def
  in_blacklist_def not_found_def malformed_def sendmail_def updateoldip_def messageBody_def
  appendInfo_def py_str_def example_config_def

section \<open>\<^verbatim>\<open>fetch\<close> never raises\<close>



section \<open>An empty server list\<close>

text \<open>
  C2 fails on the code. With an empty server list, \<^verbatim>\<open>random.choice\<close> raises \<^verbatim>\<open>IndexError\<close> in
  \<^verbatim>\<open>get_externalip_and_source\<close>, for every environment and state, and no handler catches it.
  With no cache and status 204 for the list, \<^verbatim>\<open>IPgetter()\<close> prints the status and keeps the
  empty list, and both the resolution loop and \<^verbatim>\<open>doTheWork\<close> end in that \<^verbatim>\<open>IndexError\<close>.
\<close>

theorem empty_pool_raises_IndexError:
  "get_externalip_and_source E (PList []) w = (Inl IndexError, w)
   \<and> IPgetter_init (example_env never_answers (Response 204 [])) (example_world Map.empty)
       = (Inr (PList []),
          (example_world Map.empty)\<lparr>stdout := [''Error receiving data 204''], n_list := 1, n_now := 1\<rparr>)
   \<and> fst (getipAndSource (example_env never_answers (Response 204 [])) 3 []
             (example_world Map.empty)) = Inl IndexError
   \<and> fst (doTheWork (example_env never_answers (Response 204 [])) (example_config 3 [])
             (example_world Map.empty)) = Inl IndexError"
proof (intro conjI)
  show "get_externalip_and_source E (PList []) w = (Inl IndexError, w)"
    by (simp add: get_externalip_and_source_def server_loop_numeral random_choice_def)
  show "IPgetter_init (example_env never_answers (Response 204 [])) (example_world Map.empty)
       = (Inr (PList []),
          (example_world Map.empty)\<lparr>stdout := [''Error receiving data 204''], n_list := 1, n_now := 1\<rparr>)"
    by (simp add: run_defs)
  show "fst (getipAndSource (example_env never_answers (Response 204 [])) 3 []
             (example_world Map.empty)) = Inl IndexError"
    by (simp add: getipAndSource_def run_defs)
  show "fst (doTheWork (example_env never_answers (Response 204 [])) (example_config 3 [])
             (example_world Map.empty)) = Inl IndexError"
    by (simp add: work_defs run_defs)
qed

section \<open>A server list that does not parse\<close>

text \<open>
  C9 fails on the code. With no cache and a list response (status 200) that does not parse,
  the handler hands the body, a \<^verbatim>\<open>bytes\<close> object, to \<^verbatim>\<open>write\<close> of a text file: the error file is
  created empty, \<^verbatim>\<open>TypeError\<close> is raised in place of the parse failure, and the cache file is
  not written.
\<close>

theorem unparsable_list_leaves_empty_errfile:
  "IPgetter_init (example_env never_answers (Response 200 ''<html>'')) (example_world Map.empty)
     = (Inl TypeError,
        (example_world [JSON_ERRFILE \<mapsto> []])\<lparr>n_list := 1, n_now := 1\<rparr>)"
  by (simp add: run_defs)

end
